theory Spec2Isabelle
  imports Complex_Main "HOL-Library.Sublist" "HOL-Library.AList"
begin

section \<open>Python values, exceptions and the standard library\<close>

text \<open>
  The exception classes that occur in \<^verbatim>\<open>models/story.py\<close>, \<^verbatim>\<open>models/category.py\<close>,
  \<^verbatim>\<open>cache/manager.py\<close>, \<^verbatim>\<open>api/client.py\<close> and \<^verbatim>\<open>ui/screens/main_screen.py\<close>.
  A function that may raise returns \<open>exn + 'a\<close>, with \<open>Inl e\<close> for "raises \<open>e\<close>".
\<close>

datatype exn =
  ValueError | KeyError | TypeError | AttributeError | OverflowError | OSError
  | JSONDecodeError | UnicodeDecodeError
  | APIError | APITimeoutError | APIResponseError

text \<open>
  The subclass relation, as far as the \<^verbatim>\<open>except\<close> clauses of the source need it:
  \<^verbatim>\<open>json.JSONDecodeError\<close> and \<^verbatim>\<open>UnicodeDecodeError\<close> are subclasses of \<^verbatim>\<open>ValueError\<close>,
  \<^verbatim>\<open>APITimeoutError\<close> and \<^verbatim>\<open>APIResponseError\<close> are subclasses of \<^verbatim>\<open>APIError\<close>.
\<close>

fun is_ValueError :: "exn \<Rightarrow> bool" where
  "is_ValueError ValueError = True"
| "is_ValueError JSONDecodeError = True"
| "is_ValueError UnicodeDecodeError = True"
| "is_ValueError _ = False"

fun is_APIError :: "exn \<Rightarrow> bool" where
  "is_APIError APIError = True"
| "is_APIError APITimeoutError = True"
| "is_APIError APIResponseError = True"
| "is_APIError _ = False"

text \<open>
  What \<^verbatim>\<open>json.load\<close> returns: \<^verbatim>\<open>None\<close>, \<^verbatim>\<open>bool\<close>, \<^verbatim>\<open>int\<close>, \<^verbatim>\<open>float\<close>, \<^verbatim>\<open>str\<close>,
  \<^verbatim>\<open>list\<close> and \<^verbatim>\<open>dict\<close> with string keys. A dict is an association list read with
  \<open>map_of\<close>.
\<close>

datatype json =
  JNull | JBool bool | JInt int | JFloat real | JStr string
  | JArr "json list" | JObj "(string \<times> json) list"

text \<open>Truth value of a Python object, as \<^verbatim>\<open>if x\<close> and \<^verbatim>\<open>a and b\<close> test it.\<close>

fun py_truthy :: "json \<Rightarrow> bool" where
  "py_truthy JNull = False"
| "py_truthy (JBool b) = b"
| "py_truthy (JInt i) = (i \<noteq> 0)"
| "py_truthy (JFloat x) = (x \<noteq> 0)"
| "py_truthy (JStr s) = (s \<noteq> [])"
| "py_truthy (JArr xs) = (xs \<noteq> [])"
| "py_truthy (JObj kvs) = (kvs \<noteq> [])"

text \<open>
  The functions of the Python standard library that the source calls and whose results
  are not determined by the repository: they are a parameter of the model, and the
  theorems hold for each value of it. \<open>'dt\<close> is the type of \<^verbatim>\<open>datetime\<close> objects.
  \<^item> \<open>fromisoformat\<close>: \<^verbatim>\<open>datetime.fromisoformat(s)\<close>, \<open>None\<close> when it raises \<^verbatim>\<open>ValueError\<close>;
  \<^item> \<open>isoformat\<close>: \<^verbatim>\<open>d.isoformat()\<close>;
  \<^item> \<open>timestamp_of_text\<close>: \<^verbatim>\<open>datetime.fromtimestamp(float(s))\<close> for a string \<open>s\<close>;
  \<^item> \<open>fromtimestamp\<close>: \<^verbatim>\<open>datetime.fromtimestamp(x)\<close> for a number \<open>x\<close>; the library
    documents \<^verbatim>\<open>ValueError\<close>, \<^verbatim>\<open>OverflowError\<close> and \<^verbatim>\<open>OSError\<close>;
  \<^item> \<open>py_repr\<close>: \<^verbatim>\<open>str(v)\<close> for a number, a list or a dict.
\<close>

record 'dt pylib =
  fromisoformat :: "string \<Rightarrow> 'dt option"
  isoformat :: "'dt \<Rightarrow> string"
  timestamp_of_text :: "string \<Rightarrow> exn + 'dt"
  fromtimestamp :: "real \<Rightarrow> exn + 'dt"
  py_repr :: "json \<Rightarrow> string"

text \<open>\<^verbatim>\<open>str(v)\<close>.\<close>

fun py_str :: "'dt pylib \<Rightarrow> json \<Rightarrow> string" where
  "py_str lib (JStr s) = s"
| "py_str lib JNull = ''None''"
| "py_str lib (JBool b) = (if b then ''True'' else ''False'')"
| "py_str lib v = py_repr lib v"

text \<open>\<^verbatim>\<open>s.replace('Z', '+00:00')\<close>.\<close>

definition replace_Z :: "string \<Rightarrow> string" where
  "replace_Z s = concat (map (\<lambda>c. if c = CHR ''Z'' then ''+00:00'' else [c]) s)"

text \<open>\<^verbatim>\<open>data[k]\<close> on a dict: \<^verbatim>\<open>KeyError\<close> when the key is absent.\<close>

definition subscript :: "(string \<times> json) list \<Rightarrow> string \<Rightarrow> exn + json" where
  "subscript kvs k = (case map_of kvs k of None \<Rightarrow> Inl KeyError | Some v \<Rightarrow> Inr v)"

section \<open>The models: Story and Category\<close>

subsection \<open>\<^verbatim>\<open>models/story.py\<close>\<close>

record 'dt story =
  story_id :: string
  title :: string
  url :: string
  source :: string
  published_at :: "'dt"
  excerpt :: "string option"

definition required_fields :: "string list" where
  "required_fields = [''id'', ''title'', ''url'', ''source'', ''published_at'']"

text \<open>
  The conversion of \<^verbatim>\<open>data["published_at"]\<close>. A string is tried as ISO text, then as
  a numeric timestamp, where only \<^verbatim>\<open>ValueError\<close> and \<^verbatim>\<open>TypeError\<close> are turned into the
  \<^verbatim>\<open>ValueError\<close> of the source; \<^verbatim>\<open>bool\<close> is a subclass of \<^verbatim>\<open>int\<close>. The \<^verbatim>\<open>datetime\<close>
  branch of the source needs a value that is no JSON value.
\<close>

fun parse_published_at :: "'dt pylib \<Rightarrow> json \<Rightarrow> exn + 'dt" where
  "parse_published_at lib (JStr s) =
     (case fromisoformat lib (replace_Z s) of
        Some d \<Rightarrow> Inr d
      | None \<Rightarrow>
         (case timestamp_of_text lib s of
            Inr d \<Rightarrow> Inr d
          | Inl e \<Rightarrow> if is_ValueError e \<or> e = TypeError then Inl ValueError else Inl e))"
| "parse_published_at lib (JInt i) = fromtimestamp lib (of_int i)"
| "parse_published_at lib (JFloat x) = fromtimestamp lib x"
| "parse_published_at lib (JBool b) = fromtimestamp lib (of_bool b)"
| "parse_published_at lib _ = Inl ValueError"

text \<open>
  The body of the \<^verbatim>\<open>try\<close> block of \<^verbatim>\<open>Story.from_api_response\<close>, for a dict; the
  excerpt is \<^verbatim>\<open>str(data["excerpt"]) if "excerpt" in data and data["excerpt"] else None\<close>.
\<close>

definition excerpt_of :: "'dt pylib \<Rightarrow> (string \<times> json) list \<Rightarrow> string option" where
  "excerpt_of lib kvs =
     (case map_of kvs ''excerpt'' of
        None \<Rightarrow> None
      | Some x \<Rightarrow> if py_truthy x then Some (py_str lib x) else None)"

definition story_of_dict :: "'dt pylib \<Rightarrow> (string \<times> json) list \<Rightarrow> exn + 'dt story" where
  "story_of_dict lib kvs =
     (if filter (\<lambda>field. map_of kvs field = None) required_fields \<noteq> [] then Inl ValueError
      else case subscript kvs ''published_at'' of Inl e \<Rightarrow> Inl e | Inr p \<Rightarrow>
          (case parse_published_at lib p of Inl e \<Rightarrow> Inl e | Inr d \<Rightarrow>
          (case subscript kvs ''id'' of Inl e \<Rightarrow> Inl e | Inr i \<Rightarrow>
          (case subscript kvs ''title'' of Inl e \<Rightarrow> Inl e | Inr t \<Rightarrow>
          (case subscript kvs ''url'' of Inl e \<Rightarrow> Inl e | Inr u \<Rightarrow>
          (case subscript kvs ''source'' of Inl e \<Rightarrow> Inl e | Inr s \<Rightarrow>
             Inr \<lparr>story_id = py_str lib i, title = py_str lib t, url = py_str lib u,
                  source = py_str lib s, published_at = d,
                  excerpt = excerpt_of lib kvs\<rparr>))))))"

text \<open>
  The two handlers of \<^verbatim>\<open>from_api_response\<close>: \<^verbatim>\<open>KeyError\<close>, \<^verbatim>\<open>TypeError\<close> and
  \<^verbatim>\<open>AttributeError\<close> become \<^verbatim>\<open>ValueError\<close>; every other exception passes.
\<close>

definition reraise :: "exn \<Rightarrow> exn" where
  "reraise e = (if e = KeyError \<or> e = TypeError \<or> e = AttributeError then ValueError else e)"

text \<open>
  \<^verbatim>\<open>Story.from_api_response(data)\<close>. When \<open>data\<close> is no dict, the test
  \<^verbatim>\<open>field not in data\<close> raises \<^verbatim>\<open>TypeError\<close> (a number, a bool, \<^verbatim>\<open>None\<close>), or it is a
  membership test (a list, a string) after which either a field is missing or
  \<^verbatim>\<open>data["published_at"]\<close> raises \<^verbatim>\<open>TypeError\<close>: a \<^verbatim>\<open>ValueError\<close> in each case.
\<close>

fun from_api_response :: "'dt pylib \<Rightarrow> json \<Rightarrow> exn + 'dt story" where
  "from_api_response lib (JObj kvs) =
     (case story_of_dict lib kvs of Inl e \<Rightarrow> Inl (reraise e) | Inr s \<Rightarrow> Inr s)"
| "from_api_response lib _ = Inl ValueError"

subsection \<open>\<^verbatim>\<open>models/category.py\<close>\<close>

record category =
  cat_id :: string
  name :: string
  display_name :: string

definition category_of_dict :: "'dt pylib \<Rightarrow> (string \<times> json) list \<Rightarrow> exn + category" where
  "category_of_dict lib kvs =
     (if filter (\<lambda>field. map_of kvs field = None) [''id'', ''name'', ''display_name''] \<noteq> []
      then Inl ValueError
      else case subscript kvs ''id'' of Inl e \<Rightarrow> Inl e | Inr i \<Rightarrow>
          (case subscript kvs ''name'' of Inl e \<Rightarrow> Inl e | Inr n \<Rightarrow>
          (case subscript kvs ''display_name'' of Inl e \<Rightarrow> Inl e | Inr d \<Rightarrow>
             Inr \<lparr>cat_id = py_str lib i, name = py_str lib n, display_name = py_str lib d\<rparr>)))"

text \<open>\<^verbatim>\<open>Category.from_api_response(data)\<close>, with the handlers of the Story model.\<close>

fun category_from_api_response :: "'dt pylib \<Rightarrow> json \<Rightarrow> exn + category" where
  "category_from_api_response lib (JObj kvs) =
     (case category_of_dict lib kvs of Inl e \<Rightarrow> Inl (reraise e) | Inr c \<Rightarrow> Inr c)"
| "category_from_api_response lib _ = Inl ValueError"

section \<open>The API client: \<^verbatim>\<open>APIClient.get_categories\<close>\<close>

text \<open>
  What the HTTP request of \<^verbatim>\<open>get_categories\<close> can do: \<^verbatim>\<open>httpx.TimeoutException\<close>,
  \<^verbatim>\<open>httpx.HTTPStatusError\<close> (from \<^verbatim>\<open>raise_for_status\<close>), another \<^verbatim>\<open>httpx.RequestError\<close>,
  a body that \<^verbatim>\<open>response.json()\<close> rejects with \<^verbatim>\<open>ValueError\<close>, or a decoded body.
\<close>

datatype http_result = Timeout | HTTPStatus | RequestFailed | BadBody | Body json

text \<open>\<^verbatim>\<open>d.get(k)\<close> on a dict: \<^verbatim>\<open>None\<close> when the key is absent.\<close>

definition dict_get :: "(string \<times> json) list \<Rightarrow> string \<Rightarrow> json" where
  "dict_get kvs k = (case map_of kvs k of None \<Rightarrow> JNull | Some v \<Rightarrow> v)"

text \<open>
  The loop over \<^verbatim>\<open>categories_data\<close>. \<^verbatim>\<open>cat_data.get\<close> on a value that is no dict raises
  \<^verbatim>\<open>AttributeError\<close>, which no handler of \<^verbatim>\<open>get_categories\<close> catches. The handler of the
  loop catches \<^verbatim>\<open>ValueError\<close> and \<^verbatim>\<open>KeyError\<close> and goes on with the next element.
\<close>

fun parse_categories :: "'dt pylib \<Rightarrow> json list \<Rightarrow> exn + category list" where
  "parse_categories lib [] = Inr []"
| "parse_categories lib (JObj cat_data # rest) =
     (case category_from_api_response lib
             (JObj [(''id'', dict_get cat_data ''id''),
                    (''name'', dict_get cat_data ''categoryId''),
                    (''display_name'', dict_get cat_data ''categoryName'')]) of
        Inr c \<Rightarrow> (case parse_categories lib rest of Inl e \<Rightarrow> Inl e | Inr cs \<Rightarrow> Inr (c # cs))
      | Inl e \<Rightarrow> if is_ValueError e \<or> e = KeyError then parse_categories lib rest else Inl e)"
| "parse_categories lib (_ # rest) = Inl AttributeError"

text \<open>
  \<^verbatim>\<open>APIClient.get_categories()\<close>: the four \<^verbatim>\<open>except\<close> clauses map the failures of the
  request; \<^verbatim>\<open>data.get("categories", [])\<close> needs a dict.
\<close>

fun get_categories :: "'dt pylib \<Rightarrow> http_result \<Rightarrow> exn + category list" where
  "get_categories lib Timeout = Inl APITimeoutError"
| "get_categories lib HTTPStatus = Inl APIError"
| "get_categories lib RequestFailed = Inl APIError"
| "get_categories lib BadBody = Inl APIResponseError"
| "get_categories lib (Body (JObj data)) =
     (case map_of data ''categories'' of
        None \<Rightarrow> Inr []
      | Some (JArr categories_data) \<Rightarrow>
          (case parse_categories lib categories_data of
             Inl e \<Rightarrow> if is_ValueError e \<or> e = KeyError then Inl APIResponseError else Inl e
           | Inr cs \<Rightarrow> Inr cs)
      | Some _ \<Rightarrow> Inl APIResponseError)"
| "get_categories lib (Body _) = Inl AttributeError"

section \<open>The cache: \<^verbatim>\<open>cache/manager.py\<close>\<close>

text \<open>
  The cache directory is a list of named files. A file is classified by what reading it
  does: \<^verbatim>\<open>open\<close> or \<^verbatim>\<open>read\<close> fail with \<^verbatim>\<open>OSError\<close>; the bytes are not UTF-8, so that
  reading the text file opened with \<^verbatim>\<open>encoding="utf-8"\<close> raises \<^verbatim>\<open>UnicodeDecodeError\<close>; the
  text is no JSON document, so that \<^verbatim>\<open>json.load\<close> raises \<^verbatim>\<open>json.JSONDecodeError\<close>; or the
  text is the JSON document of a value. \<^verbatim>\<open>json.dump\<close> followed by \<^verbatim>\<open>json.load\<close> gives back
  a value built from strings, \<^verbatim>\<open>None\<close>, lists and dicts, so a written file is the value.
\<close>

datatype content = Unreadable | NotUtf8 | NotJson | Json json

type_synonym directory = "(string \<times> content) list"

text \<open>
  Whether the operating system lets the process create or overwrite a file, and remove
  one: \<^verbatim>\<open>open(path, "w")\<close> and \<^verbatim>\<open>unlink\<close> raise \<^verbatim>\<open>OSError\<close> otherwise.
\<close>

record opsys =
  writable :: "string \<Rightarrow> bool"
  removable :: "string \<Rightarrow> bool"

text \<open>\<^verbatim>\<open>CacheManager._get_cache_path(category_id, batch_id)\<close>, as a file name.\<close>

definition get_cache_path :: "string \<Rightarrow> string \<Rightarrow> string" where
  "get_cache_path category_id batch_id = category_id @ ''_'' @ batch_id @ ''.json''"

definition read_file :: "content \<Rightarrow> exn + json" where
  "read_file f =
     (case f of
        Unreadable \<Rightarrow> Inl OSError
      | NotUtf8 \<Rightarrow> Inl UnicodeDecodeError
      | NotJson \<Rightarrow> Inl JSONDecodeError
      | Json data \<Rightarrow> Inr data)"

text \<open>
  \<^verbatim>\<open>for story_data in data["stories"]\<close>: a list gives its elements, a dict its keys, a
  string its characters; \<^verbatim>\<open>None\<close>, a bool or a number raise \<^verbatim>\<open>TypeError\<close>.
\<close>

fun py_iter :: "json \<Rightarrow> exn + json list" where
  "py_iter (JArr xs) = Inr xs"
| "py_iter (JObj kvs) = Inr (map (\<lambda>kv. JStr (fst kv)) kvs)"
| "py_iter (JStr s) = Inr (map (\<lambda>c. JStr [c]) s)"
| "py_iter _ = Inl TypeError"

text \<open>
  The loop of \<^verbatim>\<open>get_cached_stories\<close>: a record that raises \<^verbatim>\<open>ValueError\<close> or \<^verbatim>\<open>KeyError\<close>
  is skipped, any other exception leaves the loop.
\<close>

fun parse_cached :: "'dt pylib \<Rightarrow> json list \<Rightarrow> exn + 'dt story list" where
  "parse_cached lib [] = Inr []"
| "parse_cached lib (story_data # rest) =
     (case from_api_response lib story_data of
        Inr s \<Rightarrow> (case parse_cached lib rest of Inl e \<Rightarrow> Inl e | Inr ss \<Rightarrow> Inr (s # ss))
      | Inl e \<Rightarrow> if is_ValueError e \<or> e = KeyError then parse_cached lib rest else Inl e)"

text \<open>The \<^verbatim>\<open>try\<close> block of \<^verbatim>\<open>get_cached_stories\<close>, for a file that exists.\<close>

definition load_cache_file :: "'dt pylib \<Rightarrow> content \<Rightarrow> exn + 'dt story list option" where
  "load_cache_file lib f =
     (case read_file f of Inl e \<Rightarrow> Inl e | Inr data \<Rightarrow>
       (case data of
          JObj kvs \<Rightarrow>
            (case map_of kvs ''stories'' of
               None \<Rightarrow> Inr None
             | Some stories_data \<Rightarrow>
                (case py_iter stories_data of Inl e \<Rightarrow> Inl e | Inr xs \<Rightarrow>
                  (case parse_cached lib xs of Inl e \<Rightarrow> Inl e | Inr ss \<Rightarrow> Inr (Some ss))))
        | _ \<Rightarrow> Inr None))"

text \<open>
  \<^verbatim>\<open>CacheManager.get_cached_stories(category_id, batch_id)\<close>: \<open>Inr None\<close> is the
  \<^verbatim>\<open>None\<close> of the source, \<open>Inr (Some stories)\<close> a list. The handler catches
  \<^verbatim>\<open>json.JSONDecodeError\<close> and \<^verbatim>\<open>OSError\<close> only.
\<close>

definition get_cached_stories ::
  "'dt pylib \<Rightarrow> directory \<Rightarrow> string \<Rightarrow> string \<Rightarrow> exn + 'dt story list option" where
  "get_cached_stories lib fs category_id batch_id =
     (case map_of fs (get_cache_path category_id batch_id) of
        None \<Rightarrow> Inr None
      | Some f \<Rightarrow>
         (case load_cache_file lib f of
            Inl e \<Rightarrow> if e = JSONDecodeError \<or> e = OSError then Inr None else Inl e
          | Inr r \<Rightarrow> Inr r))"

definition story_dict :: "'dt pylib \<Rightarrow> 'dt story \<Rightarrow> json" where
  "story_dict lib s =
     JObj [(''id'', JStr (story_id s)), (''title'', JStr (title s)), (''url'', JStr (url s)),
           (''source'', JStr (source s)),
           (''published_at'', JStr (isoformat lib (published_at s))),
           (''excerpt'', (case excerpt s of None \<Rightarrow> JNull | Some e \<Rightarrow> JStr e))]"

definition cache_data :: "'dt pylib \<Rightarrow> string \<Rightarrow> string \<Rightarrow> 'dt story list \<Rightarrow> json" where
  "cache_data lib category_id batch_id stories =
     JObj [(''batch_id'', JStr batch_id), (''category_id'', JStr category_id),
           (''stories'', JArr (map (story_dict lib) stories))]"

text \<open>
  \<^verbatim>\<open>CacheManager.save_stories(category_id, batch_id, stories)\<close>: the \<^verbatim>\<open>OSError\<close> of
  \<^verbatim>\<open>open\<close> is logged and the directory stays as it is.
\<close>

definition save_stories ::
  "'dt pylib \<Rightarrow> opsys \<Rightarrow> directory \<Rightarrow> string \<Rightarrow> string \<Rightarrow> 'dt story list \<Rightarrow> directory" where
  "save_stories lib os fs category_id batch_id stories =
     (if writable os (get_cache_path category_id batch_id)
      then AList.update (get_cache_path category_id batch_id)
             (Json (cache_data lib category_id batch_id stories)) fs
      else fs)"

text \<open>
  The loop of \<^verbatim>\<open>clear_old_caches\<close> over the names that \<^verbatim>\<open>glob("*.json")\<close> lists: a file is
  removed when \<^verbatim>\<open>current_batch_id not in cache_file.name\<close>, a substring test. The
  \<^verbatim>\<open>try\<close> is around the loop, so the first \<^verbatim>\<open>OSError\<close> of \<^verbatim>\<open>unlink\<close> ends it.
\<close>

fun unlink_old :: "opsys \<Rightarrow> string \<Rightarrow> string list \<Rightarrow> directory \<Rightarrow> directory" where
  "unlink_old os current_batch_id [] fs = fs"
| "unlink_old os current_batch_id (file_name # rest) fs =
     (if \<not> sublist current_batch_id file_name
      then (if removable os file_name
            then unlink_old os current_batch_id rest (AList.delete file_name fs)
            else fs)
      else unlink_old os current_batch_id rest fs)"

definition clear_old_caches :: "opsys \<Rightarrow> directory \<Rightarrow> string \<Rightarrow> directory" where
  "clear_old_caches os fs current_batch_id =
     unlink_old os current_batch_id (filter (suffix ''.json'') (map fst fs)) fs"

section \<open>The refresh cycle: \<^verbatim>\<open>MainScreen._load_stories\<close>\<close>

text \<open>
  The two calls of the API client in \<^verbatim>\<open>_load_stories\<close>, by what they return to it:
  \<^item> \<open>latest_batch_id\<close>: \<^verbatim>\<open>get_latest_batch()\<close> raises, or returns a dict \<open>batch_info\<close> of
    which \<^verbatim>\<open>batch_info.get("id")\<close> is a string or \<^verbatim>\<open>None\<close>;
  \<^item> \<open>get_stories\<close>: \<^verbatim>\<open>get_stories(category.id)\<close> raises (an \<^verbatim>\<open>APIError\<close> for a failed
    request, another exception for a malformed element), or returns the stories and
    the batch id of the response.
\<close>

record 'dt api_client =
  latest_batch_id :: "exn + string option"
  get_stories :: "string \<Rightarrow> exn + ('dt story list \<times> string)"

text \<open>The attributes of \<^verbatim>\<open>MainScreen\<close> that \<^verbatim>\<open>_load_stories\<close> reads and assigns.\<close>

record 'dt screen =
  categories :: "category list"
  stories_by_category :: "string \<rightharpoonup> 'dt story list"
  current_batch_id :: "string option"

text \<open>
  How a call of \<^verbatim>\<open>_load_stories\<close> ends: it returns at once (no categories), it shows
  "No batch information available" and returns, it raises, or it runs to its end.
\<close>

datatype outcome = Skipped | NoBatch | Raised exn | Completed

text \<open>
  The result of a call: the screen and the cache directory as it leaves them, the cache
  directory as it is after the results are saved and before \<^verbatim>\<open>clear_old_caches\<close> runs,
  the categories for which \<^verbatim>\<open>get_stories\<close> was called, and the failures it logged
  (\<^verbatim>\<open>logger.error("Failed to fetch stories for ...")\<close>).
\<close>

record 'dt cycle =
  outcome :: outcome
  screen :: "'dt screen"
  files :: directory
  stored :: directory
  fetched :: "category list"
  failures :: "(string \<times> exn) list"


text \<open>
  The first loop: a category with a cache entry for the current batch gets its stories
  from the cache, the others are collected in \<^verbatim>\<open>categories_to_fetch\<close>. The first
  component is the exception that ended the loop, if any.
\<close>

fun classify ::
  "'dt pylib \<Rightarrow> directory \<Rightarrow> string \<Rightarrow> category list \<Rightarrow> (string \<rightharpoonup> 'dt story list) \<Rightarrow>
   exn option \<times> (string \<rightharpoonup> 'dt story list) \<times> category list" where
  "classify lib fs batch [] m = (None, m, [])"
| "classify lib fs batch (c # cs) m =
     (case get_cached_stories lib fs (name c) batch of
        Inl e \<Rightarrow> (Some e, m, [])
      | Inr (Some cached_stories) \<Rightarrow> classify lib fs batch cs (m(name c \<mapsto> cached_stories))
      | Inr None \<Rightarrow>
         (case classify lib fs batch cs m of (r, m', to_fetch) \<Rightarrow> (r, m', c # to_fetch)))"

text \<open>
  \<^verbatim>\<open>fetch_category_stories(category)\<close>: an \<^verbatim>\<open>APIError\<close> is logged and gives
  \<^verbatim>\<open>(category.name, [], "")\<close>; another exception is not caught.
\<close>

definition fetch_category_stories ::
  "'dt api_client \<Rightarrow> category \<Rightarrow> exn + (string \<times> 'dt story list \<times> string)" where
  "fetch_category_stories api c =
     (case get_stories api (cat_id c) of
        Inr (stories, batch_id) \<Rightarrow> Inr (name c, stories, batch_id)
      | Inl e \<Rightarrow> if is_APIError e then Inr (name c, [], []) else Inl e)"

text \<open>
  \<^verbatim>\<open>asyncio.gather\<close>: the results in the order of the tasks, or the exception of a task.
  When several tasks raise, the model takes the first in the order of the tasks.
\<close>

fun gather :: "(exn + 'a) list \<Rightarrow> exn + 'a list" where
  "gather [] = Inr []"
| "gather (Inl e # rs) = Inl e"
| "gather (Inr x # rs) = (case gather rs of Inl e \<Rightarrow> Inl e | Inr xs \<Rightarrow> Inr (x # xs))"

text \<open>
  The loop over the results: only a non-empty list is stored in \<^verbatim>\<open>stories_by_category\<close>
  and saved, under the batch id that came with it.
\<close>

fun store_results ::
  "'dt pylib \<Rightarrow> opsys \<Rightarrow> (string \<times> 'dt story list \<times> string) list \<Rightarrow>
   (string \<rightharpoonup> 'dt story list) \<times> directory \<Rightarrow> (string \<rightharpoonup> 'dt story list) \<times> directory" where
  "store_results lib os [] (m, fs) = (m, fs)"
| "store_results lib os ((category_name, stories, batch_id) # rs) (m, fs) =
     (if stories \<noteq> []
      then store_results lib os rs
             (m(category_name \<mapsto> stories), save_stories lib os fs category_name batch_id stories)
      else store_results lib os rs (m, fs))"

definition logged_failures :: "'dt api_client \<Rightarrow> category list \<Rightarrow> (string \<times> exn) list" where
  "logged_failures api cs =
     concat (map (\<lambda>c. case get_stories api (cat_id c) of
                         Inl e \<Rightarrow> if is_APIError e then [(name c, e)] else []
                       | Inr _ \<Rightarrow> []) cs)"

text \<open>\<^verbatim>\<open>MainScreen._load_stories()\<close>.\<close>

definition load_stories ::
  "'dt pylib \<Rightarrow> opsys \<Rightarrow> 'dt api_client \<Rightarrow> 'dt screen \<Rightarrow> directory \<Rightarrow> 'dt cycle" where
  "load_stories lib os api st fs =
     (if categories st = [] then
        \<lparr>outcome = Skipped, screen = st, files = fs, stored = fs, fetched = [], failures = []\<rparr>
      else case latest_batch_id api of
        Inl e \<Rightarrow> \<lparr>outcome = Raised e, screen = st, files = fs, stored = fs, fetched = [], failures = []\<rparr>
      | Inr batch_id \<Rightarrow>
         (case batch_id of
            None \<Rightarrow>
              \<lparr>outcome = NoBatch, screen = st\<lparr>current_batch_id := None\<rparr>, files = fs,
               stored = fs, fetched = [], failures = []\<rparr>
          | Some batch \<Rightarrow>
              if batch = [] then
                \<lparr>outcome = NoBatch, screen = st\<lparr>current_batch_id := Some batch\<rparr>, files = fs,
                 stored = fs, fetched = [], failures = []\<rparr>
              else
                (case classify lib fs batch (categories st) (stories_by_category st) of
                   (Some e, m1, to_fetch) \<Rightarrow>
                     \<lparr>outcome = Raised e,
                      screen = st\<lparr>stories_by_category := m1, current_batch_id := Some batch\<rparr>,
                      files = fs, stored = fs, fetched = [], failures = []\<rparr>
                 | (None, m1, to_fetch) \<Rightarrow>
                    (case gather (map (fetch_category_stories api) to_fetch) of
                       Inl e \<Rightarrow>
                         \<lparr>outcome = Raised e,
                          screen = st\<lparr>stories_by_category := m1, current_batch_id := Some batch\<rparr>,
                          files = fs, stored = fs, fetched = to_fetch,
                          failures = logged_failures api to_fetch\<rparr>
                     | Inr results \<Rightarrow>
                        (case store_results lib os results (m1, fs) of
                           (m2, fs2) \<Rightarrow>
                             \<lparr>outcome = Completed,
                              screen = st\<lparr>stories_by_category := m2,
                                         current_batch_id := Some batch\<rparr>,
                              files = clear_old_caches os fs2 batch, stored = fs2,
                              fetched = to_fetch,
                              failures = logged_failures api to_fetch\<rparr>)))))"

section \<open>An instance of the library\<close>

text \<open>
  A concrete library, for evaluating the model on examples: naive datetimes with a
  resolution of one second, written as \<^verbatim>\<open>YYYY-MM-DDTHH:MM:SS\<close>, and timestamps that are
  whole numbers of seconds, with UTC as the local time zone and the limits of CPython on
  a platform with a 64-bit \<^verbatim>\<open>time_t\<close>. Text of another form is answered as text that
  the library rejects, and the fraction of a timestamp is dropped. The theorems of the
  next sections are about every library; this one is used where a closed term is
  evaluated.
\<close>

datatype naive =
  Naive (year: nat) (month: nat) (day: nat) (hour: nat) (minute: nat) (second: nat)

definition digit :: "nat \<Rightarrow> char" where
  "digit n = ''0123456789'' ! (n mod 10)"

definition pad2 :: "nat \<Rightarrow> string" where
  "pad2 n = [digit (n div 10), digit n]"

definition pad4 :: "nat \<Rightarrow> string" where
  "pad4 n = [digit (n div 1000), digit (n div 100), digit (n div 10), digit n]"

definition naive_isoformat :: "naive \<Rightarrow> string" where
  "naive_isoformat d =
     pad4 (year d) @ ''-'' @ pad2 (month d) @ ''-'' @ pad2 (day d) @ ''T'' @
     pad2 (hour d) @ '':'' @ pad2 (minute d) @ '':'' @ pad2 (second d)"

definition digit_value :: "char \<Rightarrow> nat option" where
  "digit_value c =
     map_of [(CHR ''0'', 0), (CHR ''1'', 1), (CHR ''2'', 2), (CHR ''3'', 3), (CHR ''4'', 4),
             (CHR ''5'', 5), (CHR ''6'', 6), (CHR ''7'', 7), (CHR ''8'', 8), (CHR ''9'', 9)] c"

fun number_from :: "nat \<Rightarrow> string \<Rightarrow> nat option" where
  "number_from a [] = Some a"
| "number_from a (c # cs) =
     (case digit_value c of None \<Rightarrow> None | Some v \<Rightarrow> number_from (10 * a + v) cs)"

definition number :: "string \<Rightarrow> nat option" where
  "number s = (if s = [] then None else number_from 0 s)"

definition leap_year :: "nat \<Rightarrow> bool" where
  "leap_year y = (y mod 4 = 0 \<and> (y mod 100 \<noteq> 0 \<or> y mod 400 = 0))"

definition days_in_month :: "nat \<Rightarrow> nat \<Rightarrow> nat" where
  "days_in_month y m =
     (if m = 2 then (if leap_year y then 29 else 28)
      else if m = 4 \<or> m = 6 \<or> m = 9 \<or> m = 11 then 30 else 31)"

definition valid_naive :: "naive \<Rightarrow> bool" where
  "valid_naive d =
     (1 \<le> year d \<and> year d \<le> 9999 \<and> 1 \<le> month d \<and> month d \<le> 12 \<and>
      1 \<le> day d \<and> day d \<le> days_in_month (year d) (month d) \<and>
      hour d < 24 \<and> minute d < 60 \<and> second d < 60)"

definition naive_fromisoformat :: "string \<Rightarrow> naive option" where
  "naive_fromisoformat s =
     (if length s = 19 \<and> s ! 4 = CHR ''-'' \<and> s ! 7 = CHR ''-'' \<and>
         s ! 13 = CHR '':'' \<and> s ! 16 = CHR '':''
      then (case (number (take 4 s), number (take 2 (drop 5 s)), number (take 2 (drop 8 s)),
                  number (take 2 (drop 11 s)), number (take 2 (drop 14 s)),
                  number (take 2 (drop 17 s))) of
              (Some y, Some m, Some d, Some hh, Some mm, Some ss) \<Rightarrow>
                 if valid_naive (Naive y m d hh mm ss) then Some (Naive y m d hh mm ss)
                 else None
            | _ \<Rightarrow> None)
      else None)"

text \<open>The civil date and time of a number of seconds since 1970-01-01T00:00:00.\<close>

definition civil_of_seconds :: "int \<Rightarrow> naive" where
  "civil_of_seconds t =
     (let secs = t mod 86400;
          z = t div 86400 + 719468;
          era = z div 146097;
          doe = z mod 146097;
          yoe = (doe - doe div 1460 + doe div 36524 - doe div 146096) div 365;
          doy = doe - (365 * yoe + yoe div 4 - yoe div 100);
          mp = (5 * doy + 2) div 153;
          d = doy - (153 * mp + 2) div 5 + 1;
          m = (if mp < 10 then mp + 3 else mp - 9);
          y = yoe + era * 400 + (if m \<le> 2 then 1 else 0)
      in Naive (nat y) (nat m) (nat d)
               (nat (secs div 3600)) (nat (secs mod 3600 div 60)) (nat (secs mod 60)))"

definition naive_fromtimestamp :: "real \<Rightarrow> exn + naive" where
  "naive_fromtimestamp x =
     (if x < - (2 ^ 63) \<or> 2 ^ 63 \<le> x then Inl OverflowError
      else if x < - 67768040609740800 \<or> 67768036191676800 \<le> x then Inl OSError
      else if x < - 62135510400 \<or> 253402300800 \<le> x then Inl ValueError
      else Inr (civil_of_seconds \<lfloor>x\<rfloor>))"

text \<open>\<^verbatim>\<open>datetime.fromtimestamp(float(s))\<close> for a decimal integer literal.\<close>

definition naive_timestamp_of_text :: "string \<Rightarrow> exn + naive" where
  "naive_timestamp_of_text s =
     (case (case s of
              [] \<Rightarrow> None
            | c # cs \<Rightarrow> if c = CHR ''-'' then map_option (\<lambda>n. - int n) (number cs)
                        else map_option int (number s)) of
        None \<Rightarrow> Inl ValueError
      | Some n \<Rightarrow> naive_fromtimestamp (of_int n))"

function decimal :: "nat \<Rightarrow> string" where
  "decimal n = (if n < 10 then [digit n] else decimal (n div 10) @ [digit n])"
  by pat_completeness auto
termination
  by (relation "measure id") auto

declare decimal.simps [simp del]

text \<open>
  \<^verbatim>\<open>str(i)\<close> for an int; the instance does not spell out a float, a list or a dict.
\<close>

definition int_repr :: "json \<Rightarrow> string" where
  "int_repr v =
     (case v of
        JInt i \<Rightarrow> if i < 0 then ''-'' @ decimal (nat (- i)) else decimal (nat i)
      | _ \<Rightarrow> ''...'')"

definition ref_lib :: "naive pylib" where
  "ref_lib =
     \<lparr>fromisoformat = naive_fromisoformat, isoformat = naive_isoformat,
      timestamp_of_text = naive_timestamp_of_text, fromtimestamp = naive_fromtimestamp,
      py_repr = int_repr\<rparr>"

text \<open>An operating system that refuses nothing.\<close>

definition permissive :: opsys where
  "permissive = \<lparr>writable = (\<lambda>_. True), removable = (\<lambda>_. True)\<rparr>"

section \<open>Notions used in the statements\<close>

text \<open>
  The library reads the ISO text of a timestamp back: \<^verbatim>\<open>datetime.fromisoformat\<close> is
  documented as the inverse of \<^verbatim>\<open>datetime.isoformat\<close>, whose text has no \<^verbatim>\<open>Z\<close>.
\<close>

definition reads_back :: "'dt pylib \<Rightarrow> 'dt \<Rightarrow> bool" where
  "reads_back lib d = (fromisoformat lib (replace_Z (isoformat lib d)) = Some d)"

text \<open>
  A story that the cache gives back as it was saved: its excerpt is \<^verbatim>\<open>None\<close> or a
  non-empty string, and the library reads its timestamp back.
\<close>

definition valid_story :: "'dt pylib \<Rightarrow> 'dt story \<Rightarrow> bool" where
  "valid_story lib s = (excerpt s \<noteq> Some [] \<and> reads_back lib (published_at s))"

text \<open>
  A library with this property for every timestamp it produces, and in which \<^verbatim>\<open>str\<close> of
  a number, a list or a dict is never empty.
\<close>

definition inverse_isoformat :: "'dt pylib \<Rightarrow> bool" where
  "inverse_isoformat lib =
     ((\<forall>v. py_repr lib v \<noteq> []) \<and>
      (\<forall>s d. fromisoformat lib s = Some d \<longrightarrow> reads_back lib d) \<and>
      (\<forall>s d. timestamp_of_text lib s = Inr d \<longrightarrow> reads_back lib d) \<and>
      (\<forall>x d. fromtimestamp lib x = Inr d \<longrightarrow> reads_back lib d))"

text \<open>A name that \<^verbatim>\<open>clear_old_caches\<close> unlinks.\<close>

definition stale :: "string \<Rightarrow> string \<Rightarrow> bool" where
  "stale batch file_name =
     (suffix ''.json'' file_name \<and> \<not> sublist batch file_name)"

text \<open>The file that a result is saved to.\<close>

definition result_path :: "string \<times> 'dt story list \<times> string \<Rightarrow> string" where
  "result_path r = get_cache_path (fst r) (snd (snd r))"



text \<open>A library whose timestamp functions raise nothing but \<^verbatim>\<open>ValueError\<close>.\<close>

definition raises_ValueError_only :: "'dt pylib \<Rightarrow> bool" where
  "raises_ValueError_only lib =
     ((\<forall>s e. timestamp_of_text lib s = Inl e \<longrightarrow> e = ValueError) \<and>
      (\<forall>x e. fromtimestamp lib x = Inl e \<longrightarrow> e = ValueError))"

section \<open>Example data\<close>

definition tech :: category where
  "tech = \<lparr>cat_id = ''c-17'', name = ''tech'', display_name = ''Technology''\<rparr>"

definition science :: category where
  "science = \<lparr>cat_id = ''c-23'', name = ''science'', display_name = ''Science''\<rparr>"

definition world :: category where
  "world = \<lparr>cat_id = ''c-31'', name = ''world'', display_name = ''World''\<rparr>"

definition rust_story :: "naive story" where
  "rust_story =
     \<lparr>story_id = ''s1'', title = ''Compiler released'', url = ''https://a.example/1'',
      source = ''a.example'', published_at = Naive 2024 2 29 23 59 59,
      excerpt = Some ''A new edition''\<rparr>"

definition mars_story :: "naive story" where
  "mars_story =
     \<lparr>story_id = ''s2'', title = ''Probe lands'', url = ''https://b.example/2'',
      source = ''b.example'', published_at = Naive 2024 3 1 8 30 0, excerpt = None\<rparr>"

definition vote_story :: "naive story" where
  "vote_story =
     \<lparr>story_id = ''s3'', title = ''Election day'', url = ''https://c.example/3'',
      source = ''c.example'', published_at = Naive 2023 12 31 0 0 0, excerpt = None\<rparr>"

text \<open>A first load under batch b1 and a refresh under batch b2 during which the request fails.\<close>

definition start :: "naive screen" where
  "start = \<lparr>categories = [tech], stories_by_category = Map.empty, current_batch_id = None\<rparr>"





text \<open>A load in which the response reports batch b2 while the resolved batch is b1.\<close>

definition api_b1_answers_b2 :: "naive api_client" where
  "api_b1_answers_b2 = \<lparr>latest_batch_id = Inr (Some ''b1''),
                       get_stories = (\<lambda>i. Inr ([rust_story], ''b2''))\<rparr>"

definition raced_load :: "naive cycle" where
  "raced_load = load_stories ref_lib permissive api_b1_answers_b2 start []"



text \<open>The service is down while the latest batch is b1.\<close>

definition api_b1_down :: "naive api_client" where
  "api_b1_down = \<lparr>latest_batch_id = Inr (Some ''b1''),
                 get_stories = (\<lambda>i. Inl APITimeoutError)\<rparr>"

text \<open>
  A load of two categories under batch b1 in which the first request returns no stories
  and the second fails, and a refresh with the same answers.
\<close>

definition two_categories :: "naive screen" where
  "two_categories = \<lparr>categories = [tech, science], stories_by_category = Map.empty,
                     current_batch_id = None\<rparr>"

definition api_b1_nothing :: "naive api_client" where
  "api_b1_nothing =
     \<lparr>latest_batch_id = Inr (Some ''b1''),
      get_stories = (\<lambda>i. if i = cat_id tech then Inr ([], ''b1'') else Inl APITimeoutError)\<rparr>"

definition empty_load :: "naive cycle" where
  "empty_load = load_stories ref_lib permissive api_b1_nothing two_categories []"

definition refresh_after_empty :: "naive cycle" where
  "refresh_after_empty =
     load_stories ref_lib permissive api_b1_nothing (screen empty_load) (files empty_load)"

text \<open>
  Three categories loaded under batch b1, then a refresh under batch b2 during which the
  request for the second one fails.
\<close>

definition start3 :: "naive screen" where
  "start3 = \<lparr>categories = [tech, science, world], stories_by_category = Map.empty,
             current_batch_id = None\<rparr>"

definition api3_b1 :: "naive api_client" where
  "api3_b1 =
     \<lparr>latest_batch_id = Inr (Some ''b1''),
      get_stories = (\<lambda>i. if i = cat_id tech then Inr ([rust_story], ''b1'')
                         else if i = cat_id science then Inr ([mars_story], ''b1'')
                         else Inr ([vote_story], ''b1''))\<rparr>"

definition api3_b2 :: "naive api_client" where
  "api3_b2 =
     \<lparr>latest_batch_id = Inr (Some ''b2''),
      get_stories = (\<lambda>i. if i = cat_id tech then Inr ([vote_story], ''b2'')
                         else if i = cat_id science then Inl APIError
                         else Inr ([rust_story], ''b2''))\<rparr>"

definition load3 :: "naive cycle" where
  "load3 = load_stories ref_lib permissive api3_b1 start3 []"

definition refresh3 :: "naive cycle" where
  "refresh3 = load_stories ref_lib permissive api3_b2 (screen load3) (files load3)"





text \<open>
  A load under batch b1 with a cache entry for the first of two categories and a
  successful request for the second, and a refresh under the same batch while the
  service is down.
\<close>

definition start2 :: "naive screen" where
  "start2 = \<lparr>categories = [tech, science], stories_by_category = Map.empty,
             current_batch_id = None\<rparr>"

definition files2 :: directory where
  "files2 = [(''tech_b1.json'', Json (cache_data ref_lib ''tech'' ''b1'' [rust_story])),
             (''tech_b0.json'', Json (cache_data ref_lib ''tech'' ''b0'' [vote_story]))]"

definition api2_b1 :: "naive api_client" where
  "api2_b1 = \<lparr>latest_batch_id = Inr (Some ''b1''),
             get_stories = (\<lambda>i. Inr ([mars_story], ''b1''))\<rparr>"

definition load2 :: "naive cycle" where
  "load2 = load_stories ref_lib permissive api2_b1 start2 files2"

definition refresh2 :: "naive cycle" where
  "refresh2 = load_stories ref_lib permissive api_b1_down (screen load2) (files load2)"

section \<open>Evaluation\<close>

lemmas ref_eval =
  ref_lib_def naive_fromisoformat_def naive_isoformat_def naive_timestamp_of_text_def
  naive_fromtimestamp_def number_def digit_value_def valid_naive_def days_in_month_def
  leap_year_def pad2_def pad4_def digit_def replace_Z_def int_repr_def

lemmas model_eval =
  story_of_dict_def excerpt_of_def subscript_def required_fields_def reraise_def
  category_of_dict_def dict_get_def get_cache_path_def read_file_def load_cache_file_def
  get_cached_stories_def story_dict_def cache_data_def save_stories_def clear_old_caches_def
  permissive_def suffix_to_prefix

lemmas cycle_eval =
  load_stories_def get_cached_stories_def get_cache_path_def fetch_category_stories_def
  save_stories_def logged_failures_def clear_old_caches_def permissive_def suffix_to_prefix
  sublist_code read_file_def load_cache_file_def

lemmas example_data = tech_def science_def world_def rust_story_def mars_story_def vote_story_def

lemma valid_examples:
  "valid_story ref_lib rust_story" "valid_story ref_lib mars_story"
  "valid_story ref_lib vote_story"
  by (simp_all add: valid_story_def reads_back_def example_data ref_eval)

section \<open>Story construction\<close>

text \<open>
  C8, as stated (construction succeeds only when the resulting id, title, url and
  source are non-empty strings): \<^verbatim>\<open>from_api_response\<close> tests that the keys are present
  and applies \<^verbatim>\<open>str\<close> to the values; it has no test on the text. A dict whose four
  values are empty strings gives a story whose four fields are empty.
\<close>

theorem story_empty_fields_counterexample:
  "from_api_response ref_lib
     (JObj [(''id'', JStr []), (''title'', JStr []), (''url'', JStr []), (''source'', JStr []),
            (''published_at'', JStr ''2024-01-01T00:00:00'')])
   = Inr \<lparr>story_id = [], title = [], url = [], source = [],
           published_at = Naive 2024 1 1 0 0 0, excerpt = None\<rparr>"
  by (simp add: model_eval ref_eval)

text \<open>
  C8, amended: for every input dictionary, constructing a Story succeeds only when the
  keys \<^verbatim>\<open>id\<close>, \<^verbatim>\<open>title\<close>, \<^verbatim>\<open>url\<close>, \<^verbatim>\<open>source\<close> and \<^verbatim>\<open>published_at\<close> are all present; if
  one of them is absent, construction fails with the validation error \<^verbatim>\<open>ValueError\<close>.
\<close>

theorem story_missing_field:
  assumes "field \<in> set required_fields" and "field \<notin> fst ` set kvs"
  shows "from_api_response lib (JObj kvs) = Inl ValueError"
proof -
  from assms(2) have "map_of kvs field = None"
    by (simp add: map_of_eq_None_iff)
  with assms(1) have "field \<in> set (filter (\<lambda>f. map_of kvs f = None) required_fields)"
    by simp
  then have "filter (\<lambda>f. map_of kvs f = None) required_fields \<noteq> []"
    by (metis empty_iff list.set(1))
  then show ?thesis
    by (simp add: story_of_dict_def reraise_def)
qed

text \<open>C8, amended, at a dict without the key \<^verbatim>\<open>url\<close>.\<close>

theorem story_missing_field_witness:
  "''url'' \<in> set required_fields \<and>
   ''url'' \<notin> fst ` set [(''id'', JStr ''1''), (''title'', JStr ''t''), (''source'', JStr ''s''),
                          (''published_at'', JStr ''2024-01-01T00:00:00'')] \<and>
   from_api_response ref_lib
     (JObj [(''id'', JStr ''1''), (''title'', JStr ''t''), (''source'', JStr ''s''),
            (''published_at'', JStr ''2024-01-01T00:00:00'')]) = Inl ValueError"
proof -
  have f: "''url'' \<in> set required_fields"
    by (simp add: required_fields_def)
  have k: "''url'' \<notin> fst ` set [(''id'', JStr ''1''), (''title'', JStr ''t''),
                                  (''source'', JStr ''s''),
                                  (''published_at'', JStr ''2024-01-01T00:00:00'')]"
    by simp
  show ?thesis
    using f k story_missing_field [OF f k, of ref_lib] by simp
qed

text \<open>
  Every story that \<^verbatim>\<open>from_api_response\<close> builds has an excerpt that is \<^verbatim>\<open>None\<close> or
  non-empty, given that \<^verbatim>\<open>str\<close> of a number, a list or a dict is never empty: an empty
  or missing excerpt becomes \<^verbatim>\<open>None\<close>.
\<close>

lemma constructed_excerpt:
  assumes "from_api_response lib data = Inr s" and "\<forall>v. py_repr lib v \<noteq> []"
  shows "excerpt s \<noteq> Some []"
proof -
  have t: "py_truthy x \<Longrightarrow> py_str lib x \<noteq> []" for x
    using assms(2) by (cases x) simp_all
  from assms(1) obtain kvs where "data = JObj kvs" "excerpt s = excerpt_of lib kvs"
    by (cases data)
       (auto simp: story_of_dict_def split: if_splits sum.splits)
  then show ?thesis
    using t by (auto simp: excerpt_of_def split: option.splits)
qed

text \<open>
  With such a library every story that \<^verbatim>\<open>from_api_response\<close> builds is valid.
\<close>

lemma parse_published_at_reads_back:
  "inverse_isoformat lib \<Longrightarrow> parse_published_at lib v = Inr d \<Longrightarrow> reads_back lib d"
  by (cases v) (auto simp: inverse_isoformat_def split: option.splits sum.splits if_splits)

lemma constructed_valid:
  assumes "inverse_isoformat lib" and "from_api_response lib data = Inr s"
  shows "valid_story lib s"
proof -
  from assms(1) have r: "\<forall>v. py_repr lib v \<noteq> []"
    by (simp add: inverse_isoformat_def)
  from assms(2) obtain kvs p where
    "data = JObj kvs" "parse_published_at lib p = Inr (published_at s)"
    by (cases data) (auto simp: story_of_dict_def split: if_splits sum.splits)
  then have "reads_back lib (published_at s)"
    using parse_published_at_reads_back [OF assms(1)] by blast
  with constructed_excerpt [OF assms(2) r] show ?thesis
    by (simp add: valid_story_def)
qed

section \<open>Listing the categories\<close>

text \<open>
  \<^verbatim>\<open>get_categories\<close> gives \<^verbatim>\<open>Category.from_api_response\<close> a dict that always has the
  three keys, so every element that is a dict becomes a category.
\<close>

lemma category_from_dict_get:
  "category_from_api_response lib
     (JObj [(''id'', i), (''name'', n), (''display_name'', d)])
   = Inr \<lparr>cat_id = py_str lib i, name = py_str lib n, display_name = py_str lib d\<rparr>"
  by (simp add: category_of_dict_def subscript_def)

lemma parse_categories_dicts:
  "parse_categories lib (map JObj ds)
   = Inr (map (\<lambda>d. \<lparr>cat_id = py_str lib (dict_get d ''id''),
                      name = py_str lib (dict_get d ''categoryId''),
                      display_name = py_str lib (dict_get d ''categoryName'')\<rparr>) ds)"
  by (induction ds)
     (simp_all add: category_from_dict_get del: category_from_api_response.simps)

text \<open>
  C9, the code at an element without the stable key: \<^verbatim>\<open>get_categories\<close> builds
  \<open>category_dict\<close> with \<^verbatim>\<open>cat_data.get\<close>, so the test for missing fields of
  \<^verbatim>\<open>Category.from_api_response\<close> never fails, and an element without \<^verbatim>\<open>categoryId\<close> is
  returned as a category whose name is the text \<^verbatim>\<open>None\<close> instead of being dropped.
\<close>

theorem get_categories_keeps_incomplete:
  "get_categories ref_lib
     (Body (JObj [(''categories'',
                   JArr [JObj [(''id'', JStr ''u1''), (''categoryName'', JStr ''Tech'')]])]))
   = Inr [\<lparr>cat_id = ''u1'', name = ''None'', display_name = ''Tech''\<rparr>]"
  by (simp add: model_eval ref_eval)

section \<open>Cache lookup\<close>

text \<open>
  A file that is missing, cannot be opened, is no JSON document, is no JSON object or
  has no key \<^verbatim>\<open>stories\<close> is a cache miss.
\<close>

lemma lookup_misses:
  "map_of fs (get_cache_path c b) = None \<Longrightarrow> get_cached_stories lib fs c b = Inr None"
  "map_of fs (get_cache_path c b) = Some Unreadable \<Longrightarrow> get_cached_stories lib fs c b = Inr None"
  "map_of fs (get_cache_path c b) = Some NotJson \<Longrightarrow> get_cached_stories lib fs c b = Inr None"
  "map_of fs (get_cache_path c b) = Some (Json data) \<Longrightarrow> \<forall>kvs. data \<noteq> JObj kvs \<Longrightarrow>
     get_cached_stories lib fs c b = Inr None"
  "map_of fs (get_cache_path c b) = Some (Json (JObj kvs)) \<Longrightarrow> map_of kvs ''stories'' = None \<Longrightarrow>
     get_cached_stories lib fs c b = Inr None"
  by (auto simp: get_cached_stories_def load_cache_file_def read_file_def split: json.splits)

text \<open>
  C6, the code at a file that is not UTF-8: the handler of \<^verbatim>\<open>get_cached_stories\<close>
  names \<^verbatim>\<open>json.JSONDecodeError\<close> and \<^verbatim>\<open>OSError\<close>; the \<^verbatim>\<open>UnicodeDecodeError\<close> that
  reading such a file raises is neither, and the lookup raises it instead of returning
  \<^verbatim>\<open>None\<close>.
\<close>

theorem lookup_not_utf8_raises:
  "get_cached_stories ref_lib [(''tech_b1.json'', NotUtf8)] ''tech'' ''b1''
   = Inl UnicodeDecodeError"
  by (simp add: model_eval)

text \<open>
  With a library whose timestamp functions raise nothing but \<^verbatim>\<open>ValueError\<close>, every
  record that cannot be parsed is skipped and a file with a \<^verbatim>\<open>stories\<close> list is a hit.
\<close>

lemma parse_published_at_ValueError:
  "raises_ValueError_only lib \<Longrightarrow> parse_published_at lib v = Inl e \<Longrightarrow> e = ValueError"
  by (cases v) (auto simp: raises_ValueError_only_def split: option.splits sum.splits if_splits)

lemma from_api_response_ValueError:
  assumes "raises_ValueError_only lib" and "from_api_response lib data = Inl e"
  shows "e = ValueError"
proof (cases data)
  case (JObj kvs)
  with assms(2) obtain e' where e': "story_of_dict lib kvs = Inl e'" "e = reraise e'"
    by (auto split: sum.splits)
  from e'(1) have "e' = ValueError \<or> e' = KeyError"
    using parse_published_at_ValueError [OF assms(1)]
    by (auto simp: story_of_dict_def subscript_def split: if_splits sum.splits option.splits)
  with e'(2) show ?thesis
    by (auto simp: reraise_def)
qed (use assms(2) in simp_all)

lemma parse_cached_total:
  "raises_ValueError_only lib \<Longrightarrow> \<exists>ss. parse_cached lib xs = Inr ss"
proof (induction xs)
  case Nil
  then show ?case by simp
next
  case (Cons x xs)
  then obtain ss where ss: "parse_cached lib xs = Inr ss" by blast
  show ?case
  proof (cases "from_api_response lib x")
    case (Inl e)
    with from_api_response_ValueError [OF Cons.prems Inl] ss show ?thesis by simp
  next
    case (Inr s)
    with ss show ?thesis by simp
  qed
qed

lemma lookup_hit_if_ValueError_only:
  assumes "raises_ValueError_only lib"
    and "map_of fs (get_cache_path c b) = Some (Json (JObj kvs))"
    and "map_of kvs ''stories'' = Some (JArr xs)"
  shows "\<exists>ss. get_cached_stories lib fs c b = Inr (Some ss)"
proof -
  from parse_cached_total [OF assms(1)] obtain ss where "parse_cached lib xs = Inr ss"
    by blast
  with assms(2,3) show ?thesis
    by (simp add: get_cached_stories_def load_cache_file_def read_file_def)
qed

text \<open>
  C10, the code at a record whose timestamp is out of range: the file is a JSON object
  with a \<^verbatim>\<open>stories\<close> list of one record, whose \<^verbatim>\<open>published_at\<close> is the number
  \<open>10 ^ 30\<close>. \<^verbatim>\<open>datetime.fromtimestamp\<close> raises \<^verbatim>\<open>OverflowError\<close>, which neither
  \<^verbatim>\<open>from_api_response\<close> nor the loop nor the handler of the lookup catches: the lookup
  raises instead of skipping the record.
\<close>

theorem lookup_overflow_raises:
  "get_cached_stories ref_lib
     [(''tech_b1.json'',
       Json (JObj [(''stories'',
                    JArr [JObj [(''id'', JStr ''1''), (''title'', JStr ''t''), (''url'', JStr ''u''),
                                (''source'', JStr ''s''), (''published_at'', JInt (10 ^ 30))]])]))]
     ''tech'' ''b1''
   = Inl OverflowError"
  by (simp add: model_eval ref_eval)

text \<open>
  With the limits of the instance, the timestamp \<open>10 ^ 17\<close> makes \<^verbatim>\<open>datetime.fromtimestamp\<close>
  raise \<^verbatim>\<open>OSError\<close>, which the handler of the lookup takes for a failure to read the file:
  the whole entry is a miss.
\<close>

lemma lookup_oserror_is_miss:
  "get_cached_stories ref_lib
     [(''tech_b1.json'',
       Json (JObj [(''stories'',
                    JArr [JObj [(''id'', JStr ''1''), (''title'', JStr ''t''), (''url'', JStr ''u''),
                                (''source'', JStr ''s''), (''published_at'', JInt (10 ^ 17))]])]))]
     ''tech'' ''b1''
   = Inr None"
  by (simp add: model_eval ref_eval)

section \<open>Saving and looking up\<close>

lemma story_of_story_dict:
  assumes "valid_story lib s"
  shows "from_api_response lib (story_dict lib s) = Inr s"
proof -
  from assms have e: "excerpt s \<noteq> Some []"
    and d: "fromisoformat lib (replace_Z (isoformat lib (published_at s))) = Some (published_at s)"
    by (simp_all add: valid_story_def reads_back_def)
  have x: "excerpt_of lib [(''id'', JStr (story_id s)), (''title'', JStr (title s)),
             (''url'', JStr (url s)), (''source'', JStr (source s)),
             (''published_at'', JStr (isoformat lib (published_at s))),
             (''excerpt'', (case excerpt s of None \<Rightarrow> JNull | Some e \<Rightarrow> JStr e))] = excerpt s"
    using e by (cases "excerpt s") (simp_all add: excerpt_of_def)
  show ?thesis
    unfolding story_dict_def from_api_response.simps story_of_dict_def x
    by (simp add: subscript_def required_fields_def d)
qed

lemma parse_cached_story_dicts:
  "\<forall>s\<in>set stories. valid_story lib s \<Longrightarrow>
   parse_cached lib (map (story_dict lib) stories) = Inr stories"
  by (induction stories) (simp_all add: story_of_story_dict)

lemma load_saved_file:
  "\<forall>s\<in>set stories. valid_story lib s \<Longrightarrow>
   load_cache_file lib (Json (cache_data lib c b stories)) = Inr (Some stories)"
  by (simp add: load_cache_file_def read_file_def cache_data_def parse_cached_story_dicts)

lemma lookup_saved_path:
  assumes "get_cache_path n b = get_cache_path c B" and "writable os (get_cache_path n b)"
    and "\<forall>s\<in>set ss. valid_story lib s"
  shows "get_cached_stories lib (save_stories lib os fs n b ss) c B = Inr (Some ss)"
  using assms
  by (simp add: get_cached_stories_def save_stories_def update_conv' load_saved_file)

lemma lookup_other_path:
  "get_cache_path n b \<noteq> get_cache_path c B \<Longrightarrow>
   get_cached_stories lib (save_stories lib os fs n b ss) c B = get_cached_stories lib fs c B"
  by (simp add: get_cached_stories_def save_stories_def update_conv')

lemma lookup_not_writable:
  "\<not> writable os (get_cache_path n b) \<Longrightarrow>
   get_cached_stories lib (save_stories lib os fs n b ss) c B = get_cached_stories lib fs c B"
  by (simp add: save_stories_def)

lemma save_keeps_hit:
  assumes "\<forall>s\<in>set ss. valid_story lib s"
    and "\<exists>x. get_cached_stories lib fs c B = Inr (Some x)"
  shows "\<exists>x. get_cached_stories lib (save_stories lib os fs n b ss) c B = Inr (Some x)"
proof (cases "writable os (get_cache_path n b)")
  case False
  from lookup_not_writable [OF False] assms(2) show ?thesis
    by metis
next
  case w: True
  show ?thesis
  proof (cases "get_cache_path n b = get_cache_path c B")
    case True
    from lookup_saved_path [OF True w assms(1)] show ?thesis by blast
  next
    case False
    from lookup_other_path [OF False] assms(2) show ?thesis
      by metis
  qed
qed

text \<open>
  C7: for every list of valid stories, storing it under (categoryKey, batchId), when the
  file can be written, and then looking up the same (categoryKey, batchId) yields the
  stored sequence, in the same order.
\<close>

theorem save_then_lookup:
  assumes "writable os (get_cache_path category_id batch_id)"
    and "\<forall>s\<in>set stories. valid_story lib s"
  shows "get_cached_stories lib (save_stories lib os fs category_id batch_id stories)
           category_id batch_id = Inr (Some stories)"
  using assms by (simp add: get_cached_stories_def save_stories_def update_conv' load_saved_file)

text \<open>C7 at two stories, one with an excerpt and one without.\<close>

theorem save_then_lookup_witness:
  "writable permissive (get_cache_path ''tech'' ''b1'') \<and>
   valid_story ref_lib rust_story \<and> valid_story ref_lib mars_story \<and>
   get_cached_stories ref_lib
     (save_stories ref_lib permissive files2 ''tech'' ''b1'' [rust_story, mars_story])
     ''tech'' ''b1'' = Inr (Some [rust_story, mars_story])"
proof -
  have h1: "writable permissive (get_cache_path ''tech'' ''b1'')"
    by (simp add: permissive_def)
  have h2: "\<forall>s\<in>set [rust_story, mars_story]. valid_story ref_lib s"
    by (simp add: valid_examples)
  from save_then_lookup [OF h1 h2, of files2] h1 valid_examples(1,2) show ?thesis by blast
qed

section \<open>Pruning\<close>

lemma unlink_old_filter:
  "\<forall>n. removable os n \<Longrightarrow>
   unlink_old os B ns fs = filter (\<lambda>kv. \<not> (fst kv \<in> set ns \<and> \<not> sublist B (fst kv))) fs"
proof (induction ns arbitrary: fs)
  case Nil
  then show ?case by simp
next
  case (Cons n ns)
  have del: "AList.delete n fs = filter (\<lambda>kv. fst kv \<noteq> n) fs"
    by (simp add: AList.delete_eq case_prod_unfold eq_commute)
  show ?case
  proof (cases "sublist B n")
    case True
    with Cons show ?thesis
      by (auto intro: filter_cong)
  next
    case False
    with Cons have "unlink_old os B (n # ns) fs
      = filter (\<lambda>kv. \<not> (fst kv \<in> set ns \<and> \<not> sublist B (fst kv))) (filter (\<lambda>kv. fst kv \<noteq> n) fs)"
      by (simp add: del)
    also have "\<dots> = filter (\<lambda>kv. \<not> (fst kv \<in> set (n # ns) \<and> \<not> sublist B (fst kv))) fs"
      using False by (auto intro: filter_cong)
    finally show ?thesis .
  qed
qed

lemma clear_old_caches_filter:
  assumes "\<forall>n. removable os n"
  shows "clear_old_caches os fs B = filter (\<lambda>kv. \<not> stale B (fst kv)) fs"
proof -
  have "clear_old_caches os fs B
        = filter (\<lambda>kv. \<not> (fst kv \<in> set (filter (suffix ''.json'') (map fst fs)) \<and>
                            \<not> sublist B (fst kv))) fs"
    unfolding clear_old_caches_def by (rule unlink_old_filter [OF assms])
  also have "\<dots> = filter (\<lambda>kv. \<not> stale B (fst kv)) fs"
    by (rule filter_cong) (auto simp: stale_def)
  finally show ?thesis .
qed

lemma clear_old_caches_idem:
  "\<forall>n. removable os n \<Longrightarrow>
   clear_old_caches os (clear_old_caches os fs B) B = clear_old_caches os fs B"
  by (simp add: clear_old_caches_filter)

lemma unlink_old_keeps:
  "sublist B n \<Longrightarrow> map_of (unlink_old os B ns fs) n = map_of fs n"
proof (induction ns arbitrary: fs)
  case Nil
  then show ?case by simp
next
  case (Cons a ns)
  then have "\<not> sublist B a \<Longrightarrow> a \<noteq> n" by auto
  with Cons show ?case
    by (auto simp: delete_conv')
qed

lemma clear_old_caches_keeps:
  "sublist B n \<Longrightarrow> map_of (clear_old_caches os fs B) n = map_of fs n"
  by (simp add: clear_old_caches_def unlink_old_keeps)

lemma sublist_cache_path: "sublist B (get_cache_path c B)"
proof -
  have "get_cache_path c B = (c @ ''_'') @ B @ ''.json''"
    by (simp add: get_cache_path_def)
  then show ?thesis
    by (metis sublist_appendI)
qed

lemma clear_old_caches_keeps_current:
  "map_of (clear_old_caches os fs B) (get_cache_path c B) = map_of fs (get_cache_path c B)"
  by (rule clear_old_caches_keeps [OF sublist_cache_path])

lemma get_cached_stories_cong:
  "map_of fs (get_cache_path c B) = map_of fs' (get_cache_path c B) \<Longrightarrow>
   get_cached_stories lib fs c B = get_cached_stories lib fs' c B"
  by (simp add: get_cached_stories_def)

lemma lookup_after_prune:
  "get_cached_stories lib (clear_old_caches os fs B) c B = get_cached_stories lib fs c B"
  by (rule get_cached_stories_cong [OF clear_old_caches_keeps_current])

text \<open>
  C5, the code at a file of another batch whose name contains the current batch id:
  with the current batch id \<^verbatim>\<open>b1\<close>, the entry of batch \<^verbatim>\<open>b12\<close> stays, since
  \<^verbatim>\<open>"b1" in "tech_b12.json"\<close>; the entry of batch \<^verbatim>\<open>b0\<close> is removed.
\<close>

theorem prune_keeps_other_batch:
  "clear_old_caches permissive
     [(''tech_b0.json'', Json (cache_data ref_lib ''tech'' ''b0'' [])),
      (''tech_b12.json'', Json (cache_data ref_lib ''tech'' ''b12'' [])),
      (''tech_b1.json'', Json (cache_data ref_lib ''tech'' ''b1'' []))] ''b1''
   = [(''tech_b12.json'', Json (cache_data ref_lib ''tech'' ''b12'' [])),
      (''tech_b1.json'', Json (cache_data ref_lib ''tech'' ''b1'' []))]"
  by (simp add: clear_old_caches_def permissive_def suffix_to_prefix sublist_code AList.delete_eq)

section \<open>The steps of the refresh cycle\<close>

lemma gather_map_Inr: "gather (map Inr xs) = Inr xs"
  by (induction xs) simp_all

lemma gather_InrD: "gather rs = Inr xs \<Longrightarrow> rs = map Inr xs"
proof (induction rs arbitrary: xs)
  case Nil
  then show ?case by simp
next
  case (Cons r rs)
  show ?case
  proof (cases r)
    case (Inl e)
    with Cons.prems show ?thesis by simp
  next
    case (Inr x)
    with Cons.prems obtain ys where ys: "gather rs = Inr ys" and xs: "xs = x # ys"
      by (auto split: sum.splits)
    from Cons.IH [OF ys] xs Inr show ?thesis by simp
  qed
qed

lemma classify_to_fetch:
  "classify lib fs B cs m = (None, m', tf) \<Longrightarrow>
   tf = filter (\<lambda>c. get_cached_stories lib fs (name c) B = Inr None) cs"
proof (induction cs arbitrary: m m' tf)
  case Nil
  then show ?case by simp
next
  case (Cons c cs)
  show ?case
  proof (cases "get_cached_stories lib fs (name c) B")
    case (Inl e)
    with Cons.prems show ?thesis by simp
  next
    case (Inr r)
    show ?thesis
    proof (cases r)
      case None
      with Inr Cons.prems obtain tf' where
        "classify lib fs B cs m = (None, m', tf')" "tf = c # tf'"
        by (auto split: prod.splits)
      with Cons.IH None Inr show ?thesis by simp
    next
      case (Some ss)
      with Inr Cons.prems have "classify lib fs B cs (m(name c \<mapsto> ss)) = (None, m', tf)"
        by simp
      from Cons.IH [OF this] Some Inr show ?thesis by simp
    qed
  qed
qed

lemma classify_no_raise:
  "classify lib fs B cs m = (None, m', tf) \<Longrightarrow> c \<in> set cs \<Longrightarrow>
   \<exists>r. get_cached_stories lib fs (name c) B = Inr r"
proof (induction cs arbitrary: m m' tf)
  case Nil
  then show ?case by simp
next
  case (Cons a cs)
  show ?case
  proof (cases "get_cached_stories lib fs (name a) B")
    case (Inl e)
    with Cons.prems show ?thesis by simp
  next
    case (Inr r)
    show ?thesis
    proof (cases "c = a")
      case True
      with Inr show ?thesis by simp
    next
      case False
      with Cons.prems have c: "c \<in> set cs" by simp
      show ?thesis
      proof (cases r)
        case None
        with Inr Cons.prems obtain tf' where "classify lib fs B cs m = (None, m', tf')"
          by (auto split: prod.splits)
        from Cons.IH [OF this c] show ?thesis .
      next
        case (Some ss)
        with Inr Cons.prems have "classify lib fs B cs (m(name a \<mapsto> ss)) = (None, m', tf)"
          by simp
        from Cons.IH [OF this c] show ?thesis .
      qed
    qed
  qed
qed


lemma classify_all_hits:
  "\<forall>c\<in>set cs. \<exists>ss. get_cached_stories lib fs (name c) B = Inr (Some ss) \<Longrightarrow>
   \<exists>m'. classify lib fs B cs m = (None, m', [])"
proof (induction cs arbitrary: m)
  case Nil
  then show ?case by simp
next
  case (Cons c cs)
  then obtain ss where ss: "get_cached_stories lib fs (name c) B = Inr (Some ss)"
    by auto
  from Cons.prems have "\<forall>c\<in>set cs. \<exists>ss. get_cached_stories lib fs (name c) B = Inr (Some ss)"
    by simp
  from Cons.IH [OF this, of "m(name c \<mapsto> ss)"]
  obtain m' where "classify lib fs B cs (m(name c \<mapsto> ss)) = (None, m', [])"
    by blast
  with ss show ?case by simp
qed

lemma load_stories_CompletedE:
  assumes "outcome (load_stories lib os api st fs) = Completed"
  obtains B m1 tf rs m2 fs2 where
    "latest_batch_id api = Inr (Some B)" and "B \<noteq> []" and "categories st \<noteq> []"
    and "classify lib fs B (categories st) (stories_by_category st) = (None, m1, tf)"
    and "gather (map (fetch_category_stories api) tf) = Inr rs"
    and "store_results lib os rs (m1, fs) = (m2, fs2)"
    and "load_stories lib os api st fs =
           \<lparr>outcome = Completed,
            screen = st\<lparr>stories_by_category := m2, current_batch_id := Some B\<rparr>,
            files = clear_old_caches os fs2 B, stored = fs2, fetched = tf,
            failures = logged_failures api tf\<rparr>"
  using assms unfolding load_stories_def
  by (auto split: if_splits sum.splits option.splits prod.splits)



lemma store_results_files_other:
  "\<forall>r\<in>set rs. fst (snd r) = [] \<or> result_path r \<noteq> p \<Longrightarrow>
   map_of (snd (store_results lib os rs (m, fs))) p = map_of fs p"
proof (induction rs arbitrary: m fs)
  case Nil
  then show ?case by simp
next
  case (Cons r rs)
  obtain n ss b where r: "r = (n, ss, b)" by (cases r)
  with Cons.prems have "ss = [] \<or> get_cache_path n b \<noteq> p"
    and "\<forall>r\<in>set rs. fst (snd r) = [] \<or> result_path r \<noteq> p"
    by (auto simp: result_path_def)
  with Cons.IH r show ?case
    by (auto simp: save_stories_def update_conv')
qed

lemma store_results_files_keep:
  assumes "\<forall>r\<in>set rs. r = (n, ss, b) \<or> fst (snd r) = [] \<or> result_path r \<noteq> get_cache_path n b"
    and "map_of fs (get_cache_path n b) = Some (Json (cache_data lib n b ss))"
  shows "map_of (snd (store_results lib os rs (m, fs))) (get_cache_path n b)
         = Some (Json (cache_data lib n b ss))"
  using assms
proof (induction rs arbitrary: m fs)
  case Nil
  then show ?case by simp
next
  case (Cons r rs)
  obtain n' ss' b' where r: "r = (n', ss', b')" by (cases r)
  from Cons.prems(1) have rest: "\<forall>r\<in>set rs. r = (n, ss, b) \<or> fst (snd r) = [] \<or> result_path r \<noteq> get_cache_path n b"
    by simp
  show ?case
  proof (cases "ss' = []")
    case True
    with Cons.IH [OF rest Cons.prems(2)] r show ?thesis by simp
  next
    case False
    have "map_of (save_stories lib os fs n' b' ss') (get_cache_path n b)
          = Some (Json (cache_data lib n b ss))"
      using Cons.prems r False by (auto simp: save_stories_def update_conv' result_path_def)
    from Cons.IH [OF rest this] r False show ?thesis by simp
  qed
qed

lemma store_results_files_written:
  assumes "(n, ss, b) \<in> set rs" and "ss \<noteq> []" and "writable os (get_cache_path n b)"
    and "\<forall>r\<in>set rs. r = (n, ss, b) \<or> fst (snd r) = [] \<or> result_path r \<noteq> get_cache_path n b"
  shows "map_of (snd (store_results lib os rs (m, fs))) (get_cache_path n b)
         = Some (Json (cache_data lib n b ss))"
  using assms
proof (induction rs arbitrary: m fs)
  case Nil
  then show ?case by simp
next
  case (Cons r rs)
  from Cons.prems(4) have rest: "\<forall>r\<in>set rs. r = (n, ss, b) \<or> fst (snd r) = [] \<or> result_path r \<noteq> get_cache_path n b"
    by simp
  show ?case
  proof (cases "r = (n, ss, b)")
    case True
    have "map_of (save_stories lib os fs n b ss) (get_cache_path n b)
          = Some (Json (cache_data lib n b ss))"
      using Cons.prems(3) by (simp add: save_stories_def update_conv')
    from store_results_files_keep [OF rest this] True Cons.prems(2) show ?thesis
      by simp
  next
    case False
    obtain n' ss' b' where r: "r = (n', ss', b')" by (cases r)
    from False Cons.prems(1) have "(n, ss, b) \<in> set rs" by simp
    from Cons.IH [OF this Cons.prems(2,3) rest] r show ?thesis by simp
  qed
qed

lemma store_results_keeps_hit:
  assumes "\<forall>r\<in>set rs. \<forall>s\<in>set (fst (snd r)). valid_story lib s"
    and "\<exists>x. get_cached_stories lib fs c B = Inr (Some x)"
  shows "\<exists>x. get_cached_stories lib (snd (store_results lib os rs (m, fs))) c B = Inr (Some x)"
  using assms
proof (induction rs arbitrary: m fs)
  case Nil
  then show ?case by simp
next
  case (Cons r rs)
  obtain n ss b where r: "r = (n, ss, b)" by (cases r)
  from Cons.prems(1) r have v: "\<forall>s\<in>set ss. valid_story lib s"
    and rest: "\<forall>r\<in>set rs. \<forall>s\<in>set (fst (snd r)). valid_story lib s"
    by auto
  show ?case
  proof (cases "ss = []")
    case True
    with Cons.IH [OF rest Cons.prems(2)] r show ?thesis by simp
  next
    case False
    from Cons.IH [OF rest save_keeps_hit [OF v Cons.prems(2)]] r False show ?thesis
      by simp
  qed
qed

lemma store_results_makes_hit:
  assumes "\<forall>r\<in>set rs. \<forall>s\<in>set (fst (snd r)). valid_story lib s"
    and "(n, ss, b) \<in> set rs" and "ss \<noteq> []" and "writable os (get_cache_path n b)"
  shows "\<exists>x. get_cached_stories lib (snd (store_results lib os rs (m, fs))) n b = Inr (Some x)"
  using assms
proof (induction rs arbitrary: m fs)
  case Nil
  then show ?case by simp
next
  case (Cons r rs)
  from Cons.prems(1) have rest: "\<forall>r\<in>set rs. \<forall>s\<in>set (fst (snd r)). valid_story lib s"
    by simp
  show ?case
  proof (cases "r = (n, ss, b)")
    case True
    from Cons.prems(1,2) have v: "\<forall>s\<in>set ss. valid_story lib s"
      by fastforce
    have "\<exists>x. get_cached_stories lib (save_stories lib os fs n b ss) n b = Inr (Some x)"
      using Cons.prems(4) v by (simp add: lookup_saved_path)
    from store_results_keeps_hit [OF rest this] True Cons.prems(3) show ?thesis
      by simp
  next
    case False
    obtain n' ss' b' where r: "r = (n', ss', b')" by (cases r)
    from False Cons.prems(2) have "(n, ss, b) \<in> set rs" by simp
    from Cons.IH [OF rest this Cons.prems(3,4)] r show ?thesis by simp
  qed
qed


lemma fetch_category_stories_Inr:
  assumes "fetch_category_stories api c = Inr (n, ss, b)"
  shows "n = name c"
    and "ss \<noteq> [] \<Longrightarrow> get_stories api (cat_id c) = Inr (ss, b)"
  using assms
  by (auto simp: fetch_category_stories_def split: sum.splits if_splits)

lemma fetch_category_stories_ok:
  "get_stories api (cat_id c) = Inr (ss, b) \<Longrightarrow>
   fetch_category_stories api c = Inr (name c, ss, b)"
  by (simp add: fetch_category_stories_def)


lemma results_member:
  assumes "map (fetch_category_stories api) tf = map Inr rs" and "c \<in> set tf"
  obtains r where "r \<in> set rs" and "fetch_category_stories api c = Inr r"
proof -
  from assms(2) have "fetch_category_stories api c \<in> set (map (fetch_category_stories api) tf)"
    by simp
  with assms(1) have "fetch_category_stories api c \<in> Inr ` set rs"
    by simp
  then show ?thesis
    using that by auto
qed

lemma results_origin:
  assumes "map (fetch_category_stories api) tf = map Inr rs" and "r \<in> set rs"
  obtains c where "c \<in> set tf" and "fetch_category_stories api c = Inr r"
proof -
  from assms(2) have "Inr r \<in> set (map Inr rs)" by simp
  with assms(1) have "Inr r \<in> fetch_category_stories api ` set tf"
    by (metis list.set_map)
  then show ?thesis
    using that by auto
qed









lemma load3_eval:
  "load3 =
     \<lparr>outcome = Completed,
      screen = \<lparr>categories = [tech, science, world],
                stories_by_category =
                  [''tech'' \<mapsto> [rust_story], ''science'' \<mapsto> [mars_story],
                   ''world'' \<mapsto> [vote_story]],
                current_batch_id = Some ''b1''\<rparr>,
      files = [(''tech_b1.json'', Json (cache_data ref_lib ''tech'' ''b1'' [rust_story])),
               (''science_b1.json'', Json (cache_data ref_lib ''science'' ''b1'' [mars_story])),
               (''world_b1.json'', Json (cache_data ref_lib ''world'' ''b1'' [vote_story]))],
      stored = [(''tech_b1.json'', Json (cache_data ref_lib ''tech'' ''b1'' [rust_story])),
                (''science_b1.json'', Json (cache_data ref_lib ''science'' ''b1'' [mars_story])),
                (''world_b1.json'', Json (cache_data ref_lib ''world'' ''b1'' [vote_story]))],
      fetched = [tech, science, world], failures = []\<rparr>"
  by (simp add: load3_def start3_def api3_b1_def tech_def science_def world_def cycle_eval)

lemma refresh3_eval:
  "refresh3 =
     \<lparr>outcome = Completed,
      screen = \<lparr>categories = [tech, science, world],
                stories_by_category =
                  [''tech'' \<mapsto> [vote_story], ''science'' \<mapsto> [mars_story],
                   ''world'' \<mapsto> [rust_story]],
                current_batch_id = Some ''b2''\<rparr>,
      files = [(''tech_b2.json'', Json (cache_data ref_lib ''tech'' ''b2'' [vote_story])),
               (''world_b2.json'', Json (cache_data ref_lib ''world'' ''b2'' [rust_story]))],
      stored = [(''tech_b1.json'', Json (cache_data ref_lib ''tech'' ''b1'' [rust_story])),
                (''science_b1.json'', Json (cache_data ref_lib ''science'' ''b1'' [mars_story])),
                (''world_b1.json'', Json (cache_data ref_lib ''world'' ''b1'' [vote_story])),
                (''tech_b2.json'', Json (cache_data ref_lib ''tech'' ''b2'' [vote_story])),
                (''world_b2.json'', Json (cache_data ref_lib ''world'' ''b2'' [rust_story]))],
      fetched = [tech, science, world], failures = [(''science'', APIError)]\<rparr>"
  by (simp add: refresh3_def load3_eval api3_b2_def tech_def science_def world_def cycle_eval
      fun_upd_twist)

section \<open>Freshness of the mapping and of the cache\<close>




section \<open>The key of the write-back\<close>

text \<open>
  C2, as stated (for every category whose fetch succeeds, the fetched stories are
  written under the batch id that the coordinator resolved, not the one of the
  response): the coordinator resolves \<^verbatim>\<open>b1\<close>, the response reports \<^verbatim>\<open>b2\<close>; after the
  results are saved there is no file for \<^verbatim>\<open>(tech, b1)\<close> and the stories are in the file
  for \<^verbatim>\<open>(tech, b2)\<close>. And a fetch that succeeds with an empty list writes no file.
\<close>

theorem saved_under_resolved_batch_counterexample:
  "outcome raced_load = Completed \<and>
   current_batch_id (screen raced_load) = Some ''b1'' \<and>
   fetched raced_load = [tech] \<and>
   get_stories api_b1_answers_b2 (cat_id tech) = Inr ([rust_story], ''b2'') \<and>
   map_of (stored raced_load) (get_cache_path (name tech) ''b1'') = None \<and>
   map_of (stored raced_load) (get_cache_path (name tech) ''b2'')
     = Some (Json (cache_data ref_lib (name tech) ''b2'' [rust_story])) \<and>
   outcome empty_load = Completed \<and>
   get_stories api_b1_nothing (cat_id tech) = Inr ([], ''b1'') \<and>
   stored empty_load = []"
  by (simp add: raced_load_def start_def api_b1_answers_b2_def empty_load_def
      two_categories_def api_b1_nothing_def tech_def science_def cycle_eval)

text \<open>
  C2, amended: for every category whose fetch returns a non-empty story list during a
  refresh cycle that completes, the fetched stories are written to the cache under
  (categoryKey, batch id reported in the fetch response), provided the file can be
  written and no other result of the cycle goes to the same file.
\<close>

theorem results_saved_under_response_batch:
  assumes r: "r = load_stories lib os api st fs"
    and fin: "outcome r = Completed"
    and c: "c \<in> set (fetched r)"
    and ok: "get_stories api (cat_id c) = Inr (stories, batch_id)" "stories \<noteq> []"
    and w: "writable os (get_cache_path (name c) batch_id)"
    and single: "\<forall>c'\<in>set (fetched r). \<forall>stories' batch_id'.
             get_stories api (cat_id c') = Inr (stories', batch_id') \<longrightarrow>
               (name c', stories', batch_id') = (name c, stories, batch_id) \<or> stories' = [] \<or>
               get_cache_path (name c') batch_id' \<noteq> get_cache_path (name c) batch_id"
  shows "map_of (stored r) (get_cache_path (name c) batch_id)
         = Some (Json (cache_data lib (name c) batch_id stories))"
proof -
  from fin r have "outcome (load_stories lib os api st fs) = Completed" by simp
  then obtain B' m1 tf rs m2 fs2 where
    ga: "gather (map (fetch_category_stories api) tf) = Inr rs"
    and sr: "store_results lib os rs (m1, fs) = (m2, fs2)"
    and res: "load_stories lib os api st fs =
           \<lparr>outcome = Completed,
            screen = st\<lparr>stories_by_category := m2, current_batch_id := Some B'\<rparr>,
            files = clear_old_caches os fs2 B', stored = fs2, fetched = tf,
            failures = logged_failures api tf\<rparr>"
    by (rule load_stories_CompletedE)
  have tf: "fetched r = tf" and st: "stored r = snd (store_results lib os rs (m1, fs))"
    by (simp_all add: r res sr)
  have eq: "map (fetch_category_stories api) tf = map Inr rs"
    by (rule gather_InrD [OF ga])
  from c tf have ctf: "c \<in> set tf" by simp
  from results_member [OF eq ctf] obtain x where
    x: "x \<in> set rs" "fetch_category_stories api c = Inr x" .
  with ok have xin: "(name c, stories, batch_id) \<in> set rs"
    by (simp add: fetch_category_stories_ok)
  have others: "\<forall>x\<in>set rs. x = (name c, stories, batch_id) \<or> fst (snd x) = [] \<or>
                  result_path x \<noteq> get_cache_path (name c) batch_id"
  proof
    fix y assume "y \<in> set rs"
    from results_origin [OF eq this] obtain c' where
      c': "c' \<in> set tf" "fetch_category_stories api c' = Inr y" .
    obtain n' ss' b' where y: "y = (n', ss', b')" by (cases y)
    show "y = (name c, stories, batch_id) \<or> fst (snd y) = [] \<or>
            result_path y \<noteq> get_cache_path (name c) batch_id"
    proof (cases "ss' = []")
      case True
      with y show ?thesis by simp
    next
      case False
      from fetch_category_stories_Inr [OF c'(2) [unfolded y]] False
      have "n' = name c'" "get_stories api (cat_id c') = Inr (ss', b')" by simp_all
      with single c'(1) tf False y show ?thesis
        by (auto simp: result_path_def)
    qed
  qed
  show ?thesis
    unfolding st by (rule store_results_files_written [OF xin ok(2) w others])
qed

text \<open>C2, amended, at the load whose response reports another batch.\<close>

theorem results_saved_under_response_batch_witness:
  "outcome raced_load = Completed \<and>
   tech \<in> set (fetched raced_load) \<and>
   get_stories api_b1_answers_b2 (cat_id tech) = Inr ([rust_story], ''b2'') \<and>
   writable permissive (get_cache_path (name tech) ''b2'') \<and>
   map_of (stored raced_load) (get_cache_path (name tech) ''b2'')
     = Some (Json (cache_data ref_lib (name tech) ''b2'' [rust_story]))"
proof -
  have ev: "outcome raced_load = Completed" "fetched raced_load = [tech]"
    by (simp_all add: raced_load_def start_def api_b1_answers_b2_def tech_def cycle_eval)
  have h1: "raced_load = load_stories ref_lib permissive api_b1_answers_b2 start []"
    by (simp add: raced_load_def)
  have h2: "outcome raced_load = Completed"
    by (rule ev(1))
  have h3: "tech \<in> set (fetched raced_load)"
    by (simp add: ev(2))
  have h4: "get_stories api_b1_answers_b2 (cat_id tech) = Inr ([rust_story], ''b2'')"
    by (simp add: api_b1_answers_b2_def)
  have h5: "[rust_story] \<noteq> []"
    by simp
  have h6: "writable permissive (get_cache_path (name tech) ''b2'')"
    by (simp add: permissive_def)
  have h7: "\<forall>c'\<in>set (fetched raced_load). \<forall>stories' batch_id'.
       get_stories api_b1_answers_b2 (cat_id c') = Inr (stories', batch_id') \<longrightarrow>
         (name c', stories', batch_id') = (name tech, [rust_story], ''b2'') \<or> stories' = [] \<or>
         get_cache_path (name c') batch_id' \<noteq> get_cache_path (name tech) ''b2''"
    by (simp add: ev(2) api_b1_answers_b2_def)
  from results_saved_under_response_batch [OF h1 h2 h3 h4 h5 h6 h7] h2 h3 h4 h6
  show ?thesis by blast
qed

section \<open>A second refresh\<close>

text \<open>
  C3, as stated (after a completed cycle and with an unchanged batch id, a second
  refresh performs no fetch): the first cycle completes with batch \<^verbatim>\<open>b1\<close>; the request
  for the first category returns an empty list, which is not saved, and the request
  for the second fails. The second refresh under the same batch fetches both again.
\<close>

theorem second_refresh_fetches_counterexample:
  "outcome empty_load = Completed \<and>
   current_batch_id (screen empty_load) = Some ''b1'' \<and>
   get_stories api_b1_nothing (cat_id tech) = Inr ([], ''b1'') \<and>
   get_stories api_b1_nothing (cat_id science) = Inl APITimeoutError \<and>
   latest_batch_id api_b1_nothing = Inr (Some ''b1'') \<and>
   outcome refresh_after_empty = Completed \<and>
   fetched refresh_after_empty = [tech, science]"
  by (simp add: refresh_after_empty_def empty_load_def two_categories_def api_b1_nothing_def
      tech_def science_def cycle_eval)

text \<open>
  C3, amended: if a refresh cycle completes with batch id \<open>B\<close> and every selected
  category either had a cache entry for \<open>B\<close> or was fetched with a non-empty list whose
  response reports \<open>B\<close> and whose file could be written, the fetched stories being valid
  and every unlink permitted, then a second refresh over the same categories with the
  same batch id completes, calls \<^verbatim>\<open>get_stories\<close> for no category and leaves the cache
  directory as it was.
\<close>

theorem second_refresh_no_fetch:
  assumes r1: "r1 = load_stories lib os api1 st fs"
    and fin: "outcome r1 = Completed"
    and b1: "latest_batch_id api1 = Inr (Some B)"
    and b2: "latest_batch_id api2 = Inr (Some B)"
    and cached: "\<forall>c\<in>set (categories st).
            (\<exists>x. get_cached_stories lib fs (name c) B = Inr (Some x)) \<or>
            (\<exists>ss. get_stories api1 (cat_id c) = Inr (ss, B) \<and> ss \<noteq> [] \<and>
                  writable os (get_cache_path (name c) B))"
    and valid: "\<forall>c\<in>set (categories st). \<forall>ss b.
            get_stories api1 (cat_id c) = Inr (ss, b) \<longrightarrow> (\<forall>s\<in>set ss. valid_story lib s)"
    and rm: "\<forall>n. removable os n"
    and r2: "r2 = load_stories lib os api2 (screen r1) (files r1)"
  shows "outcome r2 = Completed \<and> fetched r2 = [] \<and> files r2 = files r1"
proof -
  from fin r1 have "outcome (load_stories lib os api1 st fs) = Completed" by simp
  then obtain B' m1 tf rs m2 fs2 where
    b: "latest_batch_id api1 = Inr (Some B')" and ne: "B' \<noteq> []"
    and cs: "categories st \<noteq> []"
    and cl: "classify lib fs B' (categories st) (stories_by_category st) = (None, m1, tf)"
    and ga: "gather (map (fetch_category_stories api1) tf) = Inr rs"
    and sr: "store_results lib os rs (m1, fs) = (m2, fs2)"
    and res: "load_stories lib os api1 st fs =
           \<lparr>outcome = Completed,
            screen = st\<lparr>stories_by_category := m2, current_batch_id := Some B'\<rparr>,
            files = clear_old_caches os fs2 B', stored = fs2, fetched = tf,
            failures = logged_failures api1 tf\<rparr>"
    by (rule load_stories_CompletedE)
  from b b1 have B: "B' = B" by simp
  have tf: "tf = filter (\<lambda>c. get_cached_stories lib fs (name c) B = Inr None) (categories st)"
    using classify_to_fetch [OF cl] B by simp
  have eq: "map (fetch_category_stories api1) tf = map Inr rs"
    by (rule gather_InrD [OF ga])
  have fs2: "fs2 = snd (store_results lib os rs (m1, fs))"
    by (simp add: sr)
  have f1: "files r1 = clear_old_caches os fs2 B"
    and c1: "categories (screen r1) = categories st"
    by (simp_all add: r1 res B)
  have v: "\<forall>x\<in>set rs. \<forall>s\<in>set (fst (snd x)). valid_story lib s"
  proof
    fix x assume "x \<in> set rs"
    from results_origin [OF eq this] obtain c where
      c: "c \<in> set tf" "fetch_category_stories api1 c = Inr x" .
    obtain n ss b where x: "x = (n, ss, b)" by (cases x)
    show "\<forall>s\<in>set (fst (snd x)). valid_story lib s"
    proof (cases "ss = []")
      case True
      with x show ?thesis by simp
    next
      case False
      from fetch_category_stories_Inr(2) [OF c(2) [unfolded x] False]
      have "get_stories api1 (cat_id c) = Inr (ss, b)" .
      moreover from c(1) have "c \<in> set (categories st)" by (simp add: tf)
      ultimately show ?thesis
        using valid x by auto
    qed
  qed
  have hits: "\<forall>c\<in>set (categories st).
                \<exists>x. get_cached_stories lib (files r1) (name c) B = Inr (Some x)"
  proof
    fix c assume c: "c \<in> set (categories st)"
    have "\<exists>x. get_cached_stories lib fs2 (name c) B = Inr (Some x)"
    proof (cases "\<exists>x. get_cached_stories lib fs (name c) B = Inr (Some x)")
      case True
      then show ?thesis
        unfolding fs2 by (rule store_results_keeps_hit [OF v])
    next
      case False
      with cached c obtain ss where
        ss: "get_stories api1 (cat_id c) = Inr (ss, B)" "ss \<noteq> []"
          "writable os (get_cache_path (name c) B)"
        by blast
      from classify_no_raise [OF cl c] B False
      have "get_cached_stories lib fs (name c) B = Inr None"
        by (metis option.exhaust)
      with c have "c \<in> set tf" by (simp add: tf)
      from results_member [OF eq this] obtain x where
        "x \<in> set rs" "fetch_category_stories api1 c = Inr x" .
      with ss(1) have "(name c, ss, B) \<in> set rs"
        by (simp add: fetch_category_stories_ok)
      then show ?thesis
        unfolding fs2 using ss(2,3) by (rule store_results_makes_hit [OF v])
    qed
    then show "\<exists>x. get_cached_stories lib (files r1) (name c) B = Inr (Some x)"
      by (simp add: f1 lookup_after_prune)
  qed
  from classify_all_hits [OF hits, of "stories_by_category (screen r1)"]
  obtain m' where
    cl2: "classify lib (files r1) B (categories st) (stories_by_category (screen r1))
          = (None, m', [])"
    by blast
  have r2': "r2 = \<lparr>outcome = Completed,
            screen = (screen r1)\<lparr>stories_by_category := m', current_batch_id := Some B\<rparr>,
            files = clear_old_caches os (files r1) B, stored = files r1, fetched = [],
            failures = logged_failures api2 []\<rparr>"
    unfolding r2 load_stories_def using cs ne B b2 cl2 by (simp add: c1)
  have "clear_old_caches os (files r1) B = files r1"
    unfolding f1 by (rule clear_old_caches_idem [OF rm])
  with r2' show ?thesis by simp
qed

text \<open>
  C3, amended, at a load with one cache hit and one successful request, followed by a
  refresh while the service is down.
\<close>

theorem second_refresh_no_fetch_witness:
  "outcome load2 = Completed \<and>
   latest_batch_id api2_b1 = Inr (Some ''b1'') \<and>
   latest_batch_id api_b1_down = Inr (Some ''b1'') \<and>
   get_cached_stories ref_lib files2 (name tech) ''b1'' = Inr (Some [rust_story]) \<and>
   get_stories api2_b1 (cat_id science) = Inr ([mars_story], ''b1'') \<and>
   (\<forall>n. removable permissive n) \<and>
   outcome refresh2 = Completed \<and> fetched refresh2 = [] \<and> files refresh2 = files load2"
proof -
  have h1: "load2 = load_stories ref_lib permissive api2_b1 start2 files2"
    by (simp add: load2_def)
  have h2: "outcome load2 = Completed"
    by (simp add: load2_def start2_def files2_def api2_b1_def example_data cycle_eval
        model_eval ref_eval)
  have h3: "latest_batch_id api2_b1 = Inr (Some ''b1'')"
    by (simp add: api2_b1_def)
  have h4: "latest_batch_id api_b1_down = Inr (Some ''b1'')"
    by (simp add: api_b1_down_def)
  have hit: "get_cached_stories ref_lib files2 (name tech) ''b1'' = Inr (Some [rust_story])"
    by (simp add: files2_def example_data model_eval ref_eval del: add_2_eq_Suc add_2_eq_Suc')
  have ok: "get_stories api2_b1 (cat_id science) = Inr ([mars_story], ''b1'')"
    by (simp add: api2_b1_def)
  have h5: "\<forall>c\<in>set (categories start2).
      (\<exists>x. get_cached_stories ref_lib files2 (name c) ''b1'' = Inr (Some x)) \<or>
      (\<exists>ss. get_stories api2_b1 (cat_id c) = Inr (ss, ''b1'') \<and> ss \<noteq> [] \<and>
            writable permissive (get_cache_path (name c) ''b1''))"
    using hit ok by (simp add: start2_def permissive_def)
  have h6: "\<forall>c\<in>set (categories start2). \<forall>ss b.
      get_stories api2_b1 (cat_id c) = Inr (ss, b) \<longrightarrow> (\<forall>s\<in>set ss. valid_story ref_lib s)"
    by (auto simp: start2_def api2_b1_def valid_examples)
  have h7: "\<forall>n. removable permissive n"
    by (simp add: permissive_def)
  have h8: "refresh2 = load_stories ref_lib permissive api_b1_down (screen load2) (files load2)"
    by (simp add: refresh2_def)
  from second_refresh_no_fetch [OF h1 h2 h3 h4 h5 h6 h7 h8] h2 h3 h4 hit ok h7
  show ?thesis by blast
qed

section \<open>Partial failure\<close>




end
